theory Spec2Isabelle
  imports Main "HOL-Library.Word" "HOL-Library.Product_Lexorder"
begin

section \<open>The side algebra of the sequence graph (vg.hpp)\<close>

text \<open>
  The header \<^verbatim>\<open>src/vg.hpp\<close> defines two small value classes inline,
  \<^verbatim>\<open>NodeTraversal\<close> and \<^verbatim>\<open>NodeSide\<close>, with their comparison operators
  and the canonicalisation of an edge into an ordered pair of node sides. Everything else
  of class \<^verbatim>\<open>VG\<close> is only declared there.

  Node identifiers are \<^verbatim>\<open>int64_t\<close>: 64-bit words, compared as two's complement
  numbers (\<open><s\<close>). A \<^verbatim>\<open>Node*\<close> is the address it holds, a natural number:
  the built-in comparisons of pointers compare addresses.
\<close>

type_synonym int64_t = "64 word"

type_synonym Node_ptr = nat

subsection \<open>NodeTraversal (vg.hpp, lines 48-72)\<close>

record NodeTraversal =
  node :: Node_ptr
  backward :: bool

text \<open>\<^verbatim>\<open>operator==\<close>: \<^verbatim>\<open>node == other.node && backward == other.backward\<close>.\<close>

definition NodeTraversal_eq :: "NodeTraversal \<Rightarrow> NodeTraversal \<Rightarrow> bool" where
  "NodeTraversal_eq t other =
     (NodeTraversal.node t = NodeTraversal.node other \<and> backward t = backward other)"

text \<open>\<^verbatim>\<open>operator!=\<close>: \<^verbatim>\<open>node != other.node || backward != other.backward\<close>.\<close>

definition NodeTraversal_neq :: "NodeTraversal \<Rightarrow> NodeTraversal \<Rightarrow> bool" where
  "NodeTraversal_neq t other =
     (NodeTraversal.node t \<noteq> NodeTraversal.node other \<or> backward t \<noteq> backward other)"

text \<open>
  \<^verbatim>\<open>operator<\<close>:
  \<^verbatim>\<open>node < other.node || (node == other.node && backward < other.backward)\<close>.
  The comparison of the two \<^verbatim>\<open>bool\<close>s promotes them to \<^verbatim>\<open>int\<close>, so
  \<^verbatim>\<open>false < true\<close>, which is the order of \<^typ>\<open>bool\<close>.
\<close>

definition NodeTraversal_less :: "NodeTraversal \<Rightarrow> NodeTraversal \<Rightarrow> bool" where
  "NodeTraversal_less t other =
     (NodeTraversal.node t < NodeTraversal.node other \<or>
      (NodeTraversal.node t = NodeTraversal.node other \<and> backward t < backward other))"

subsection \<open>NodeSide (vg.hpp, lines 80-129)\<close>

record NodeSide =
  node :: int64_t
  is_end :: bool

text \<open>\<^verbatim>\<open>operator==\<close>: \<^verbatim>\<open>node == other.node && is_end == other.is_end\<close>.\<close>

definition NodeSide_eq :: "NodeSide \<Rightarrow> NodeSide \<Rightarrow> bool" where
  "NodeSide_eq s other = (node s = node other \<and> is_end s = is_end other)"

text \<open>\<^verbatim>\<open>operator!=\<close>: \<^verbatim>\<open>node != other.node || is_end != other.is_end\<close>.\<close>

definition NodeSide_neq :: "NodeSide \<Rightarrow> NodeSide \<Rightarrow> bool" where
  "NodeSide_neq s other = (node s \<noteq> node other \<or> is_end s \<noteq> is_end other)"

text \<open>
  \<^verbatim>\<open>operator<\<close>:
  \<^verbatim>\<open>node < other.node || (node == other.node && is_end < other.is_end)\<close>,
  on signed 64-bit identifiers.
\<close>

definition NodeSide_less :: "NodeSide \<Rightarrow> NodeSide \<Rightarrow> bool" where
  "NodeSide_less s other =
     (node s <s node other \<or> (node s = node other \<and> is_end s < is_end other))"

text \<open>
  \<^verbatim>\<open>std::minmax(a, b)\<close> of \<^verbatim>\<open><algorithm>\<close>, at type \<^verbatim>\<open>NodeSide\<close>: the
  pair \<^verbatim>\<open>(b, a)\<close> if \<^verbatim>\<open>b < a\<close> and the pair \<^verbatim>\<open>(a, b)\<close> otherwise, with
  \<^verbatim>\<open>operator<\<close> of \<^verbatim>\<open>NodeSide\<close>.
\<close>

definition minmax :: "NodeSide \<Rightarrow> NodeSide \<Rightarrow> NodeSide \<times> NodeSide" where
  "minmax a b = (if NodeSide_less b a then (b, a) else (a, b))"

text \<open>
  Modelled from the spec: the message type \<^verbatim>\<open>Edge\<close> comes from the generated
  header \<^verbatim>\<open>vg.pb.h\<close>, which is not among the sources. The specification gives its
  layout: \<^verbatim>\<open>{from:int64, to:int64, from_start:bool, to_end:bool}\<close>; the edge
  connects the start of \<^verbatim>\<open>from\<close> if \<^verbatim>\<open>from_start\<close> (its end otherwise) to
  the end of \<^verbatim>\<open>to\<close> if \<^verbatim>\<open>to_end\<close> (its start otherwise).
\<close>

record Edge =
  "from" :: int64_t
  "to" :: int64_t
  from_start :: bool
  to_end :: bool

text \<open>
  \<^verbatim>\<open>pair_from_edge(Edge* e)\<close>:
  \<^verbatim>\<open>minmax(NodeSide(e->from(), !e->from_start()), NodeSide(e->to(), e->to_end()))\<close>.
\<close>

definition pair_from_edge :: "Edge \<Rightarrow> NodeSide \<times> NodeSide" where
  "pair_from_edge e =
     minmax \<lparr>node = from e, is_end = \<not> from_start e\<rparr> \<lparr>node = to e, is_end = to_end e\<rparr>"

text \<open>
  \<^verbatim>\<open>pair_from_start_edge(start_id, oriented_other)\<close>:
  \<^verbatim>\<open>minmax(NodeSide(start_id, false), NodeSide(oriented_other.first, !oriented_other.second))\<close>.
\<close>

definition pair_from_start_edge :: "int64_t \<Rightarrow> int64_t \<times> bool \<Rightarrow> NodeSide \<times> NodeSide" where
  "pair_from_start_edge start_id oriented_other =
     minmax \<lparr>node = start_id, is_end = False\<rparr>
            \<lparr>node = fst oriented_other, is_end = \<not> snd oriented_other\<rparr>"

text \<open>
  \<^verbatim>\<open>pair_from_end_edge(end_id, oriented_other)\<close>:
  \<^verbatim>\<open>minmax(NodeSide(end_id, true), NodeSide(oriented_other.first, oriented_other.second))\<close>.
\<close>

definition pair_from_end_edge :: "int64_t \<Rightarrow> int64_t \<times> bool \<Rightarrow> NodeSide \<times> NodeSide" where
  "pair_from_end_edge end_id oriented_other =
     minmax \<lparr>node = end_id, is_end = True\<rparr>
            \<lparr>node = fst oriented_other, is_end = snd oriented_other\<rparr>"

text \<open>
  The two sides an edge joins, in the order the edge names them, and the same edge written
  from its other end: the side that was the to side becomes the from side.
\<close>

definition from_side :: "Edge \<Rightarrow> NodeSide" where
  "from_side e = \<lparr>node = from e, is_end = \<not> from_start e\<rparr>"

definition to_side :: "Edge \<Rightarrow> NodeSide" where
  "to_side e = \<lparr>node = to e, is_end = to_end e\<rparr>"

definition edge_between :: "NodeSide \<Rightarrow> NodeSide \<Rightarrow> Edge" where
  "edge_between a b =
     \<lparr>from = node a, to = node b, from_start = \<not> is_end a, to_end = is_end b\<rparr>"

text \<open>
  The sort key of a side: its identifier read as a signed number, then the end flag. Pairs
  carry the lexicographic order here.
\<close>

definition side_key :: "NodeSide \<Rightarrow> int \<times> bool" where
  "side_key s = (sint (node s), is_end s)"

definition traversal_key :: "NodeTraversal \<Rightarrow> nat \<times> bool" where
  "traversal_key t = (NodeTraversal.node t, backward t)"

section \<open>Bulk edits of node identifiers\<close>

text \<open>
  Modelled from the spec: the messages \<^verbatim>\<open>Node\<close>, \<^verbatim>\<open>Mapping\<close>, \<^verbatim>\<open>Path\<close>
  and \<^verbatim>\<open>Graph\<close> of the generated header vg.pb.h, which is not among the sources.
  Section 6 of the specification gives the three repeated fields of a graph message: nodes
  \<^verbatim>\<open>{id:int64, sequence:string}\<close>, edges, and paths
  \<^verbatim>\<open>{name:string, mappings:[...]}\<close>; by section 3 a mapping references a node
  traversal (an identifier and an orientation) and carries optional edits (match, insert,
  delete, substitution). The field \<^verbatim>\<open>id\<close> is written \<open>id'\<close>.
\<close>

record Node =
  id' :: int64_t
  sequence :: string

datatype Edit = Match nat | Insert string | Delete nat | Substitution string

record Mapping =
  node_id :: int64_t
  is_reverse :: bool
  edit :: "Edit list"

record Path =
  name :: string
  mapping :: "Mapping list"

text \<open>
  Modelled from the spec: the part of class \<^verbatim>\<open>VG\<close> that the identifier edits
  change: the node and edge sequences of its member \<^verbatim>\<open>graph\<close> and the paths of its
  member \<^verbatim>\<open>paths\<close>. The indexes are derived from these (section 2 of the
  specification) and are rebuilt after a bulk edit.
\<close>

record VG =
  nodes :: "Node list"
  edges :: "Edge list"
  paths :: "Path list"

text \<open>
  Modelled from the spec: \<^verbatim>\<open>VG::has_node(int64_t id)\<close>, declared in vg.hpp (line
  489) and defined in vg.cpp: whether a node of the graph carries the identifier.
\<close>

definition has_node :: "VG \<Rightarrow> int64_t \<Rightarrow> bool" where
  "has_node g i = (i \<in> set (map id' (nodes g)))"

text \<open>
  Modelled from the spec: \<^verbatim>\<open>VG::increment_node_ids(int64_t increment)\<close>, declared
  in vg.hpp (lines 366-367) with the comment ``Add the given value to all node IDs.
  Preserves the paths'' and defined in vg.cpp. The specification calls it a bulk id edit
  that preserves paths; as every public mutation it keeps the edges on existing nodes
  (invariant 1 of section 3), and like \<^verbatim>\<open>compact_ids\<close> it rewrites every edge
  endpoint and every path mapping.
\<close>

definition increment_node_ids :: "int64_t \<Rightarrow> VG \<Rightarrow> VG" where
  "increment_node_ids increment g =
     g\<lparr>nodes := map (\<lambda>n. n\<lparr>id' := id' n + increment\<rparr>) (nodes g),
       edges := map (\<lambda>e. e\<lparr>from := from e + increment, to := to e + increment\<rparr>) (edges g),
       paths := map (\<lambda>p. p\<lparr>mapping :=
                  map (\<lambda>m. m\<lparr>node_id := node_id m + increment\<rparr>) (mapping p)\<rparr>) (paths g)\<rparr>"

text \<open>
  Modelled from the spec: \<^verbatim>\<open>VG::swap_node_id(int64_t node_id, int64_t new_id)\<close>,
  declared in vg.hpp (lines 370-373) with the comment ``Change the ID of the node with the
  first id to the second, new ID not used by any node. Invalidates any paths containing
  the node, since they are not updated'' and defined in vg.cpp. By section 7 of the
  specification an identifier that is already live is an \<^verbatim>\<open>IdConflict\<close>. The edges
  follow the node (invariant 1 of section 3); the paths are left as they are.
\<close>

datatype error = IdConflict

definition swap_node_id :: "int64_t \<Rightarrow> int64_t \<Rightarrow> VG \<Rightarrow> error + VG" where
  "swap_node_id old_id new_id g =
     (if has_node g new_id then Inl IdConflict
      else Inr (g\<lparr>nodes := map (\<lambda>n. if id' n = old_id then n\<lparr>id' := new_id\<rparr> else n) (nodes g),
                   edges := map (\<lambda>e. e\<lparr>from := (if from e = old_id then new_id else from e),
                                         to := (if to e = old_id then new_id else to e)\<rparr>)
                              (edges g)\<rparr>))"

text \<open>
  A path is valid in a graph when each of its mappings names a node of the graph, and the
  edges are valid when both endpoints of each are nodes of the graph (invariant 1).
\<close>

definition path_valid :: "VG \<Rightarrow> Path \<Rightarrow> bool" where
  "path_valid g p = list_all (\<lambda>m. has_node g (node_id m)) (mapping p)"

definition paths_valid :: "VG \<Rightarrow> bool" where
  "paths_valid g = list_all (path_valid g) (paths g)"

definition edges_valid :: "VG \<Rightarrow> bool" where
  "edges_valid g = list_all (\<lambda>e. has_node g (from e) \<and> has_node g (to e)) (edges g)"

text \<open>
  A graph of two nodes, 1 and 2, the edge from the end of 1 to the start of 2, and one
  path over both nodes.
\<close>

definition two_nodes :: VG where
  "two_nodes =
     \<lparr>nodes = [\<lparr>id' = 1, sequence = ''AC''\<rparr>, \<lparr>id' = 2, sequence = ''GT''\<rparr>],
      edges = [\<lparr>from = 1, to = 2, from_start = False, to_end = False\<rparr>],
      paths = [\<lparr>name = ''ref'',
                mapping = [\<lparr>node_id = 1, is_reverse = False, edit = [Match 2]\<rparr>,
                           \<lparr>node_id = 2, is_reverse = False, edit = [Match 2]\<rparr>]\<rparr>]\<rparr>"

section \<open>The doubled-strand graph of the GCSA2 emission\<close>










section \<open>Properties of the comparisons\<close>

lemma sint_eq_iff64: "(sint (a :: int64_t) = sint b) = (a = b)"
  by (auto intro: signed_word_eqI)

lemma side_key_inj: "(side_key a = side_key b) = (a = b)"
  by (cases a, cases b) (simp add: side_key_def sint_eq_iff64)

lemma NodeSide_less_key: "NodeSide_less a b = (side_key a < side_key b)"
  by (auto simp: NodeSide_less_def side_key_def word_sless_alt less_prod_def sint_eq_iff64)

lemma NodeSide_less_irrefl: "\<not> NodeSide_less a a"
  by (simp add: NodeSide_less_key)

lemma NodeSide_less_trans: "NodeSide_less a b \<Longrightarrow> NodeSide_less b c \<Longrightarrow> NodeSide_less a c"
  by (simp add: NodeSide_less_key)

lemma NodeSide_less_total: "NodeSide_less a b \<or> a = b \<or> NodeSide_less b a"
  using side_key_inj [of a b] by (auto simp: NodeSide_less_key)

lemma minmax_commute: "minmax a b = minmax b a"
proof -
  consider "NodeSide_less a b" | "a = b" | "NodeSide_less b a"
    using NodeSide_less_total by blast
  then show ?thesis
  proof cases
    case 1
    then have "\<not> NodeSide_less b a"
      by (auto simp: NodeSide_less_key)
    with 1 show ?thesis by (simp add: minmax_def)
  next
    case 2
    then show ?thesis by simp
  next
    case 3
    then have "\<not> NodeSide_less a b"
      by (auto simp: NodeSide_less_key)
    with 3 show ?thesis by (simp add: minmax_def)
  qed
qed

lemma minmax_keys:
  "side_key (fst (minmax a b)) = min (side_key a) (side_key b)"
  "side_key (snd (minmax a b)) = max (side_key a) (side_key b)"
  by (auto simp: minmax_def NodeSide_less_key min_def max_def)

lemma traversal_key_inj: "(traversal_key t = traversal_key u) = (t = u)"
  by (cases t, cases u) (simp add: traversal_key_def)

lemma NodeTraversal_less_key: "NodeTraversal_less t u = (traversal_key t < traversal_key u)"
  by (auto simp: NodeTraversal_less_def traversal_key_def less_prod_def)

lemma minmax_cases: "minmax a b = (a, b) \<or> minmax a b = (b, a)"
  by (simp add: minmax_def)

lemma minmax_ordered: "\<not> NodeSide_less (snd (minmax a b)) (fst (minmax a b))"
  by (auto simp: minmax_def NodeSide_less_key)

lemma sides_of_edge_between: "from_side (edge_between a b) = a" "to_side (edge_between a b) = b"
  by (simp_all add: from_side_def to_side_def edge_between_def)

lemma pair_from_edge_sides: "pair_from_edge e = minmax (from_side e) (to_side e)"
  by (simp add: pair_from_edge_def from_side_def to_side_def)

subsection \<open>Entries of the side lists\<close>

text \<open>
  The side lists \<^verbatim>\<open>edges_on_start\<close> and \<^verbatim>\<open>edges_on_end\<close> hold, for a node, the
  node at the other end of each edge together with a flag for its relative orientation.
  \<^verbatim>\<open>pair_from_start_edge\<close> and \<^verbatim>\<open>pair_from_end_edge\<close> turn such an entry into
  a canonical pair of sides. The entry that gives back the canonical pair of an edge is, at
  either end of the edge, the node at its other end with the flag
  \<open>from_start e \<noteq> to_end e\<close>.
\<close>

lemma pair_from_start_edge_from:
  "from_start e \<Longrightarrow>
     pair_from_start_edge (from e) (to e, from_start e \<noteq> to_end e) = pair_from_edge e"
  by (simp add: pair_from_start_edge_def pair_from_edge_def)

lemma pair_from_end_edge_from:
  "\<not> from_start e \<Longrightarrow>
     pair_from_end_edge (from e) (to e, from_start e \<noteq> to_end e) = pair_from_edge e"
  by (simp add: pair_from_end_edge_def pair_from_edge_def)

lemma pair_from_start_edge_to:
  "\<not> to_end e \<Longrightarrow>
     pair_from_start_edge (to e) (from e, from_start e \<noteq> to_end e) = pair_from_edge e"
  by (simp add: pair_from_start_edge_def pair_from_edge_def minmax_commute [of "\<lparr>node = to e, is_end = False\<rparr>"])

lemma pair_from_end_edge_to:
  "to_end e \<Longrightarrow>
     pair_from_end_edge (to e) (from e, from_start e \<noteq> to_end e) = pair_from_edge e"
  by (simp add: pair_from_end_edge_def pair_from_edge_def minmax_commute [of "\<lparr>node = to e, is_end = True\<rparr>"])

subsection \<open>Virtual identifiers and edges\<close>




















subsection \<open>Identifier edits\<close>

lemma has_node_increment: "has_node (increment_node_ids k g) (i + k) = has_node g i"
  by (auto simp: has_node_def increment_node_ids_def image_iff)

lemma path_valid_increment:
  "path_valid (increment_node_ids k g) (p\<lparr>mapping := map (\<lambda>m. m\<lparr>node_id := node_id m + k\<rparr>) (mapping p)\<rparr>) = path_valid g p"
  by (simp add: path_valid_def list_all_iff has_node_increment)

lemma paths_valid_increment: "paths_valid (increment_node_ids k g) = paths_valid g"
proof -
  have "paths (increment_node_ids k g) =
      map (\<lambda>p. p\<lparr>mapping := map (\<lambda>m. m\<lparr>node_id := node_id m + k\<rparr>) (mapping p)\<rparr>) (paths g)"
    by (simp add: increment_node_ids_def)
  then show ?thesis
    by (simp add: paths_valid_def list_all_iff path_valid_increment)
qed

lemma edges_valid_increment: "edges_valid (increment_node_ids k g) = edges_valid g"
proof -
  have "edges (increment_node_ids k g) =
      map (\<lambda>e. e\<lparr>from := from e + k, to := to e + k\<rparr>) (edges g)"
    by (simp add: increment_node_ids_def)
  then show ?thesis
    by (simp add: edges_valid_def list_all_iff has_node_increment)
qed

lemma swap_paths: "swap_node_id old new g = Inr g' \<Longrightarrow> paths g' = paths g"
  by (auto simp: swap_node_id_def split: if_splits)

lemma swap_has_node:
  assumes "swap_node_id old new g = Inr g'"
  shows "has_node g' i = ((has_node g i \<and> i \<noteq> old) \<or> (has_node g old \<and> i = new))"
proof -
  have n: "nodes g' = map (\<lambda>n. if id' n = old then n\<lparr>id' := new\<rparr> else n) (nodes g)"
    using assms by (auto simp: swap_node_id_def split: if_splits)
  have "map id' (nodes g') = map (\<lambda>n. if id' n = old then new else id' n) (nodes g)"
    unfolding n by simp
  then have "has_node g' i = (\<exists>n \<in> set (nodes g). (if id' n = old then new else id' n) = i)"
    by (auto simp: has_node_def image_iff)
  also have "\<dots> = ((has_node g i \<and> i \<noteq> old) \<or> (has_node g old \<and> i = new))"
    by (auto simp: has_node_def image_iff)
  finally show ?thesis .
qed

lemma swap_new_fresh: "swap_node_id old new g = Inr g' \<Longrightarrow> \<not> has_node g new"
  by (auto simp: swap_node_id_def split: if_splits)

lemma swap_edges:
  assumes "swap_node_id old new g = Inr g'"
  shows "edges g' = map (\<lambda>e. e\<lparr>from := (if from e = old then new else from e),
                                         to := (if to e = old then new else to e)\<rparr>) (edges g)"
  using assms by (auto simp: swap_node_id_def split: if_splits)

lemma swap_edges_valid:
  assumes "swap_node_id old new g = Inr g'" "edges_valid g"
  shows "edges_valid g'"
  using assms(2) swap_new_fresh [OF assms(1)]
  by (auto simp: edges_valid_def list_all_iff swap_edges [OF assms(1)] swap_has_node [OF assms(1)])

lemma swap_path_invalid:
  assumes "swap_node_id old new g = Inr g'" "has_node g old" "m \<in> set (mapping p)" "node_id m = old"
  shows "\<not> path_valid g' p"
proof -
  have "old \<noteq> new" using assms(2) swap_new_fresh [OF assms(1)] by auto
  then have "\<not> has_node g' old" by (simp add: swap_has_node [OF assms(1)])
  with assms(3,4) show ?thesis by (auto simp: path_valid_def list_all_iff)
qed

section \<open>The claims\<close>

text \<open>
  C8. Equality and ordering of the two value types are lexicographic on their fields.
  For two \<^verbatim>\<open>NodeSide\<close> values, \<^verbatim>\<open>==\<close> holds exactly when both fields agree,
  \<^verbatim>\<open>!=\<close> is its negation, and \<^verbatim>\<open><\<close> is the lexicographic order of the pairs
  (node as a signed 64-bit number, is_end). For two \<^verbatim>\<open>NodeTraversal\<close> values the
  same holds on the pairs (node, backward), the node being compared as the pointer itself,
  that is by the identity of the node and not by its contents.
\<close>

theorem C8_comparisons_lexicographic:
  "NodeSide_eq a b = (a = b) \<and>
   NodeSide_neq a b = (a \<noteq> b) \<and>
   NodeSide_less a b = ((sint (node a), is_end a) < (sint (node b), is_end b)) \<and>
   NodeTraversal_eq t u = (t = u) \<and>
   NodeTraversal_neq t u = (t \<noteq> u) \<and>
   NodeTraversal_less t u =
     ((NodeTraversal.node t, backward t) < (NodeTraversal.node u, backward u))"
proof -
  have "NodeSide_eq a b = (a = b)"
    by (cases a, cases b) (simp add: NodeSide_eq_def)
  moreover have "NodeSide_neq a b = (a \<noteq> b)"
    by (cases a, cases b) (simp add: NodeSide_neq_def)
  moreover have "NodeSide_less a b = ((sint (node a), is_end a) < (sint (node b), is_end b))"
    using NodeSide_less_key [of a b] by (simp add: side_key_def)
  moreover have "NodeTraversal_eq t u = (t = u)"
    by (cases t, cases u) (simp add: NodeTraversal_eq_def)
  moreover have "NodeTraversal_neq t u = (t \<noteq> u)"
    by (cases t, cases u) (simp add: NodeTraversal_neq_def)
  moreover have "NodeTraversal_less t u =
      ((NodeTraversal.node t, backward t) < (NodeTraversal.node u, backward u))"
    using NodeTraversal_less_key [of t u] by (simp add: traversal_key_def)
  ultimately show ?thesis by blast
qed

text \<open>
  The comparisons at concrete values: the side (-3, end) is below (2, start) although its
  flag is the larger one and its identifier the larger unsigned word; on equal identifiers
  the flag decides; a traversal at the lower address is the smaller one.
\<close>

theorem C8_comparisons_lexicographic_witness:
  "NodeSide_less \<lparr>node = - 3, is_end = True\<rparr> \<lparr>node = 2, is_end = False\<rparr> \<and>
   \<not> NodeSide_less \<lparr>node = 2, is_end = False\<rparr> \<lparr>node = - 3, is_end = True\<rparr> \<and>
   NodeSide_less \<lparr>node = 2, is_end = False\<rparr> \<lparr>node = 2, is_end = True\<rparr> \<and>
   \<not> NodeSide_less \<lparr>node = 2, is_end = True\<rparr> \<lparr>node = 2, is_end = True\<rparr> \<and>
   NodeSide_eq \<lparr>node = 2, is_end = True\<rparr> \<lparr>node = 2, is_end = True\<rparr> \<and>
   NodeSide_neq \<lparr>node = 2, is_end = False\<rparr> \<lparr>node = 2, is_end = True\<rparr> \<and>
   NodeTraversal_less \<lparr>NodeTraversal.node = 16, backward = True\<rparr> \<lparr>NodeTraversal.node = 48, backward = False\<rparr> \<and>
   NodeTraversal_less \<lparr>NodeTraversal.node = 16, backward = False\<rparr> \<lparr>NodeTraversal.node = 16, backward = True\<rparr> \<and>
   \<not> NodeTraversal_less \<lparr>NodeTraversal.node = 48, backward = False\<rparr> \<lparr>NodeTraversal.node = 16, backward = True\<rparr> \<and>
   NodeTraversal_eq \<lparr>NodeTraversal.node = 16, backward = True\<rparr> \<lparr>NodeTraversal.node = 16, backward = True\<rparr> \<and>
   NodeTraversal_neq \<lparr>NodeTraversal.node = 16, backward = True\<rparr> \<lparr>NodeTraversal.node = 48, backward = True\<rparr>"
  using
    C8_comparisons_lexicographic [of "\<lparr>node = - 3, is_end = True\<rparr>"
      "\<lparr>node = 2, is_end = False\<rparr>" "\<lparr>NodeTraversal.node = 16, backward = True\<rparr>"
      "\<lparr>NodeTraversal.node = 48, backward = False\<rparr>"]
    C8_comparisons_lexicographic [of "\<lparr>node = 2, is_end = False\<rparr>"
      "\<lparr>node = - 3, is_end = True\<rparr>" "\<lparr>NodeTraversal.node = 48, backward = False\<rparr>"
      "\<lparr>NodeTraversal.node = 16, backward = True\<rparr>"]
    C8_comparisons_lexicographic [of "\<lparr>node = 2, is_end = False\<rparr>"
      "\<lparr>node = 2, is_end = True\<rparr>" "\<lparr>NodeTraversal.node = 16, backward = False\<rparr>"
      "\<lparr>NodeTraversal.node = 16, backward = True\<rparr>"]
    C8_comparisons_lexicographic [of "\<lparr>node = 2, is_end = True\<rparr>"
      "\<lparr>node = 2, is_end = True\<rparr>" "\<lparr>NodeTraversal.node = 16, backward = True\<rparr>"
      "\<lparr>NodeTraversal.node = 16, backward = True\<rparr>"]
    C8_comparisons_lexicographic [of "\<lparr>node = 2, is_end = False\<rparr>"
      "\<lparr>node = 2, is_end = True\<rparr>" "\<lparr>NodeTraversal.node = 16, backward = True\<rparr>"
      "\<lparr>NodeTraversal.node = 48, backward = True\<rparr>"]
  by (simp add: less_prod_def)

text \<open>
  C5. The canonical pair of an edge is the pair of its two sides, the from side being
  (from, not from_start) and the to side (to, to_end), put in order: it is one of the two
  arrangements of these sides, its second component is not below its first in the order
  of \<^verbatim>\<open>NodeSide\<close>, and its components are the minimum and the maximum of the two
  sides under the lexicographic order of (node, is_end). The arrangement in which the two
  sides are given does not matter: the sides (a, b) and the sides (b, a) give the same
  pair, also as the edge from a to b and the edge from b to a.
\<close>

theorem C5_canonical_pair_order_independent:
  "pair_from_edge e = minmax (from_side e) (to_side e) \<and>
   from_side e = \<lparr>node = from e, is_end = \<not> from_start e\<rparr> \<and>
   to_side e = \<lparr>node = to e, is_end = to_end e\<rparr> \<and>
   (pair_from_edge e = (from_side e, to_side e) \<or>
    pair_from_edge e = (to_side e, from_side e)) \<and>
   \<not> NodeSide_less (snd (pair_from_edge e)) (fst (pair_from_edge e)) \<and>
   side_key (fst (pair_from_edge e)) = min (side_key (from_side e)) (side_key (to_side e)) \<and>
   side_key (snd (pair_from_edge e)) = max (side_key (from_side e)) (side_key (to_side e)) \<and>
   minmax a b = minmax b a \<and>
   from_side (edge_between a b) = a \<and> to_side (edge_between a b) = b \<and>
   pair_from_edge (edge_between a b) = pair_from_edge (edge_between b a)"
proof -
  have p: "pair_from_edge e = minmax (from_side e) (to_side e)"
    by (rule pair_from_edge_sides)
  have "pair_from_edge (edge_between a b) = minmax a b"
    by (simp add: pair_from_edge_sides sides_of_edge_between)
  moreover have "pair_from_edge (edge_between b a) = minmax b a"
    by (simp add: pair_from_edge_sides sides_of_edge_between)
  ultimately have swap: "pair_from_edge (edge_between a b) = pair_from_edge (edge_between b a)"
    by (simp add: minmax_commute)
  have sides: "from_side e = \<lparr>node = from e, is_end = \<not> from_start e\<rparr>"
    "to_side e = \<lparr>node = to e, is_end = to_end e\<rparr>"
    by (simp_all add: from_side_def to_side_def)
  have arr: "pair_from_edge e = (from_side e, to_side e) \<or>
      pair_from_edge e = (to_side e, from_side e)"
    unfolding p by (rule minmax_cases)
  have ord: "\<not> NodeSide_less (snd (pair_from_edge e)) (fst (pair_from_edge e))"
    unfolding p by (rule minmax_ordered)
  have keys: "side_key (fst (pair_from_edge e)) = min (side_key (from_side e)) (side_key (to_side e))"
    "side_key (snd (pair_from_edge e)) = max (side_key (from_side e)) (side_key (to_side e))"
    unfolding p by (rule minmax_keys)+
  show ?thesis
    using p sides arr ord keys swap minmax_commute [of a b] sides_of_edge_between [of a b]
    by blast
qed

text \<open>
  The edge from the start of node 2 to the end of node 1 and the edge from the end of
  node 1 to the start of node 2 join the same two sides, and both get the pair
  ((1, end), (2, start)).
\<close>

theorem C5_canonical_pair_order_independent_witness:
  "pair_from_edge \<lparr>from = 2, to = 1, from_start = True, to_end = True\<rparr> =
     (\<lparr>node = 1, is_end = True\<rparr>, \<lparr>node = 2, is_end = False\<rparr>) \<and>
   pair_from_edge \<lparr>from = 1, to = 2, from_start = False, to_end = False\<rparr> =
     (\<lparr>node = 1, is_end = True\<rparr>, \<lparr>node = 2, is_end = False\<rparr>)"
proof -
  let ?e1 = "\<lparr>from = 2, to = 1, from_start = True, to_end = True\<rparr>"
  let ?e2 = "\<lparr>from = 1, to = 2, from_start = False, to_end = False\<rparr>"
  let ?A = "\<lparr>node = 1, is_end = True\<rparr>"
  let ?B = "\<lparr>node = 2, is_end = False\<rparr>"
  have lt: "NodeSide_less ?A ?B"
    by (simp add: NodeSide_less_def word_sless_alt)
  have s1: "from_side ?e1 = ?B" "to_side ?e1 = ?A" "from_side ?e2 = ?A" "to_side ?e2 = ?B"
    by (simp_all add: from_side_def to_side_def)
  note t1 = C5_canonical_pair_order_independent [of ?e1 ?B ?A]
  note t2 = C5_canonical_pair_order_independent [of ?e2 ?B ?A]
  from t1 have arr1: "pair_from_edge ?e1 = (?B, ?A) \<or> pair_from_edge ?e1 = (?A, ?B)"
    and ord1: "\<not> NodeSide_less (snd (pair_from_edge ?e1)) (fst (pair_from_edge ?e1))"
    unfolding s1 by blast+
  from t2 have arr2: "pair_from_edge ?e2 = (?A, ?B) \<or> pair_from_edge ?e2 = (?B, ?A)"
    and ord2: "\<not> NodeSide_less (snd (pair_from_edge ?e2)) (fst (pair_from_edge ?e2))"
    unfolding s1 by blast+
  have a: "pair_from_edge ?e1 = (?A, ?B)"
  proof (rule disjE [OF arr1])
    assume h: "pair_from_edge ?e1 = (?B, ?A)"
    from ord1 have "\<not> NodeSide_less ?A ?B" unfolding h by simp
    with lt show ?thesis by blast
  qed
  have b: "pair_from_edge ?e2 = (?A, ?B)"
  proof (rule disjE [OF arr2])
    assume h: "pair_from_edge ?e2 = (?B, ?A)"
    from ord2 have "\<not> NodeSide_less ?A ?B" unfolding h by simp
    with lt show ?thesis by blast
  qed
  show ?thesis using a b by blast
qed




text \<open>
  C9. \<^verbatim>\<open>increment_node_ids(k)\<close> shifts the identifier of every node, both
  endpoints of every edge and the node of every path mapping by k, so valid paths stay
  valid and edges stay on existing nodes. \<^verbatim>\<open>swap_node_id(old, new)\<close>, where it
  succeeds, leaves the paths as they were, so every path with a mapping on the renamed
  node no longer is valid; every edge endpoint that named the old identifier names the
  new one, and edges stay on existing nodes.
\<close>

theorem C9_id_edits_paths_and_edges:
  "(paths_valid g \<longrightarrow> paths_valid (increment_node_ids k g)) \<and>
   (edges_valid g \<longrightarrow> edges_valid (increment_node_ids k g)) \<and>
   map id' (nodes (increment_node_ids k g)) = map (\<lambda>n. id' n + k) (nodes g) \<and>
   map sequence (nodes (increment_node_ids k g)) = map sequence (nodes g) \<and>
   map (\<lambda>p. map node_id (mapping p)) (paths (increment_node_ids k g)) =
     map (\<lambda>p. map (\<lambda>m. node_id m + k) (mapping p)) (paths g) \<and>
   map (\<lambda>e. (from e, to e)) (edges (increment_node_ids k g)) =
     map (\<lambda>e. (from e + k, to e + k)) (edges g) \<and>
   (swap_node_id old new g = Inr g' \<longrightarrow>
      paths g' = paths g \<and>
      (has_node g old \<longrightarrow>
         (\<forall>p \<in> set (paths g'). (\<exists>m \<in> set (mapping p). node_id m = old) \<longrightarrow> \<not> path_valid g' p)) \<and>
      map (\<lambda>e. (from e, to e)) (edges g') =
        map (\<lambda>e. (if from e = old then new else from e, if to e = old then new else to e))
          (edges g) \<and>
      (edges_valid g \<longrightarrow> edges_valid g'))"
proof -
  have a: "paths_valid g \<longrightarrow> paths_valid (increment_node_ids k g)"
    by (simp add: paths_valid_increment)
  have b: "edges_valid g \<longrightarrow> edges_valid (increment_node_ids k g)"
    by (simp add: edges_valid_increment)
  have c: "map id' (nodes (increment_node_ids k g)) = map (\<lambda>n. id' n + k) (nodes g)"
    by (simp add: increment_node_ids_def)
  have c': "map sequence (nodes (increment_node_ids k g)) = map sequence (nodes g)"
    by (simp add: increment_node_ids_def comp_def)
  have d: "map (\<lambda>p. map node_id (mapping p)) (paths (increment_node_ids k g)) =
     map (\<lambda>p. map (\<lambda>m. node_id m + k) (mapping p)) (paths g)"
    by (simp add: increment_node_ids_def comp_def)
  have e: "map (\<lambda>e. (from e, to e)) (edges (increment_node_ids k g)) =
     map (\<lambda>e. (from e + k, to e + k)) (edges g)"
    by (simp add: increment_node_ids_def comp_def)
  have f: "swap_node_id old new g = Inr g' \<longrightarrow>
      paths g' = paths g \<and>
      (has_node g old \<longrightarrow>
         (\<forall>p \<in> set (paths g'). (\<exists>m \<in> set (mapping p). node_id m = old) \<longrightarrow> \<not> path_valid g' p)) \<and>
      map (\<lambda>e. (from e, to e)) (edges g') =
        map (\<lambda>e. (if from e = old then new else from e, if to e = old then new else to e))
          (edges g) \<and>
      (edges_valid g \<longrightarrow> edges_valid g')"
  proof
    assume s: "swap_node_id old new g = Inr g'"
    have 1: "paths g' = paths g" by (rule swap_paths [OF s])
    have 2: "has_node g old \<longrightarrow>
         (\<forall>p \<in> set (paths g'). (\<exists>m \<in> set (mapping p). node_id m = old) \<longrightarrow> \<not> path_valid g' p)"
      using swap_path_invalid [OF s] by blast
    have 3: "map (\<lambda>e. (from e, to e)) (edges g') =
        map (\<lambda>e. (if from e = old then new else from e, if to e = old then new else to e))
          (edges g)"
      by (simp add: swap_edges [OF s] comp_def)
    have 4: "edges_valid g \<longrightarrow> edges_valid g'"
      using swap_edges_valid [OF s] by blast
    show "paths g' = paths g \<and>
      (has_node g old \<longrightarrow>
         (\<forall>p \<in> set (paths g'). (\<exists>m \<in> set (mapping p). node_id m = old) \<longrightarrow> \<not> path_valid g' p)) \<and>
      map (\<lambda>e. (from e, to e)) (edges g') =
        map (\<lambda>e. (if from e = old then new else from e, if to e = old then new else to e))
          (edges g) \<and>
      (edges_valid g \<longrightarrow> edges_valid g')"
      using 1 2 3 4 by blast
  qed
  show ?thesis using a b c c' d e f by blast
qed

text \<open>
  On the graph of two nodes: after a shift by 10 the edge is 11 -> 12 and the path runs
  over 11 and 12, and both are valid; after renaming node 2 to 7 the edge is 1 -> 7 and
  valid, while the path still names node 2 and is not.
\<close>

theorem C9_id_edits_paths_and_edges_witness:
  "paths_valid two_nodes \<and> edges_valid two_nodes \<and>
   paths_valid (increment_node_ids 10 two_nodes) \<and>
   edges_valid (increment_node_ids 10 two_nodes) \<and>
   map (\<lambda>e. (from e, to e)) (edges (increment_node_ids 10 two_nodes)) = [(11, 12)] \<and>
   map (\<lambda>p. map node_id (mapping p)) (paths (increment_node_ids 10 two_nodes)) = [[11, 12]] \<and>
   swap_node_id 2 7 two_nodes =
     Inr (two_nodes\<lparr>nodes := [\<lparr>id' = 1, sequence = ''AC''\<rparr>, \<lparr>id' = 7, sequence = ''GT''\<rparr>],
                    edges := [\<lparr>from = 1, to = 7, from_start = False, to_end = False\<rparr>]\<rparr>) \<and>
   \<not> paths_valid (two_nodes\<lparr>nodes := [\<lparr>id' = 1, sequence = ''AC''\<rparr>, \<lparr>id' = 7, sequence = ''GT''\<rparr>],
                    edges := [\<lparr>from = 1, to = 7, from_start = False, to_end = False\<rparr>]\<rparr>) \<and>
   edges_valid (two_nodes\<lparr>nodes := [\<lparr>id' = 1, sequence = ''AC''\<rparr>, \<lparr>id' = 7, sequence = ''GT''\<rparr>],
                    edges := [\<lparr>from = 1, to = 7, from_start = False, to_end = False\<rparr>]\<rparr>)"
proof -
  let ?g' = "two_nodes\<lparr>nodes := [\<lparr>id' = 1, sequence = ''AC''\<rparr>, \<lparr>id' = 7, sequence = ''GT''\<rparr>],
                    edges := [\<lparr>from = 1, to = 7, from_start = False, to_end = False\<rparr>]\<rparr>"
  have pv: "paths_valid two_nodes"
    by (simp add: paths_valid_def path_valid_def has_node_def two_nodes_def)
  have ev: "edges_valid two_nodes"
    by (simp add: edges_valid_def has_node_def two_nodes_def)
  have sw: "swap_node_id 2 7 two_nodes = Inr ?g'"
    by (simp add: swap_node_id_def has_node_def two_nodes_def)
  have hn: "has_node two_nodes 2"
    by (simp add: has_node_def two_nodes_def)
  note t = C9_id_edits_paths_and_edges [of two_nodes 10 2 7 ?g']
  from t pv have 1: "paths_valid (increment_node_ids 10 two_nodes)" by blast
  from t ev have 2: "edges_valid (increment_node_ids 10 two_nodes)" by blast
  from t have 3: "map (\<lambda>e. (from e, to e)) (edges (increment_node_ids 10 two_nodes)) = [(11, 12)]"
    by (simp add: two_nodes_def)
  from t have 4: "map (\<lambda>p. map node_id (mapping p)) (paths (increment_node_ids 10 two_nodes)) = [[11, 12]]"
    by (simp add: two_nodes_def)
  from t sw ev have 5: "edges_valid ?g'" by blast
  from t sw hn have inv: "\<forall>p \<in> set (paths ?g'). (\<exists>m \<in> set (mapping p). node_id m = 2) \<longrightarrow> \<not> path_valid ?g' p"
    by blast
  then have 6: "\<not> paths_valid ?g'"
    by (simp add: paths_valid_def two_nodes_def)
  show ?thesis using pv ev 1 2 3 4 sw 5 6 by blast
qed

end
